theory Spec2Isabelle
  imports Complex_Main "HOL-Library.Multiset"
begin

section \<open>Python values used by \<open>models/code_embeddings.py\<close>\<close>

text \<open>
  The embedding follows \<open>src/models/code_embeddings.py\<close>, class \<open>CodeEmbedder\<close>.
  Python strings are \<open>string\<close>, a \<open>dict\<close> is an association list in insertion order
  with unique keys, a \<open>set\<close> of strings is the list of its elements in the order in which
  they were first added, Python \<open>int\<close> is \<open>int\<close>, and a \<open>float\<close> is read as the
  real number it denotes (only comparisons between similarities are used here).
\<close>

datatype error = AttributeError | UnboundLocalError | IndexError | KeyError | NotFittedError

text \<open>\<open>str(n)\<close> for a length, as the f-string \<open>f'args_{len(...)}'\<close> prints it.\<close>

definition digit_char :: "nat \<Rightarrow> char" where
  "digit_char d = ''0123456789'' ! d"

fun str_nat :: "nat \<Rightarrow> string" where
  "str_nat n = (if n < 10 then [digit_char n] else str_nat (n div 10) @ [digit_char (n mod 10)])"

declare str_nat.simps [simp del]

text \<open>\<open>' '.join(features)\<close>.\<close>

fun join_space :: "string list \<Rightarrow> string" where
  "join_space [] = []"
| "join_space [x] = x"
| "join_space (x # y # ys) = x @ '' '' @ join_space (y # ys)"

text \<open>\<open>operations.add(x)\<close> on a set kept as its insertion history.\<close>

definition set_add :: "'a \<Rightarrow> 'a list \<Rightarrow> 'a list" where
  "set_add x s = (if x \<in> set s then s else s @ [x])"

text \<open>\<open>d[k] = v\<close>: an existing key keeps its position, a new key goes to the end.\<close>

fun dict_set :: "'k \<Rightarrow> 'v \<Rightarrow> ('k \<times> 'v) list \<Rightarrow> ('k \<times> 'v) list" where
  "dict_set k v [] = [(k, v)]"
| "dict_set k v ((k', v') # d) = (if k' = k then (k, v) # d else (k', v') # dict_set k v d)"

text \<open>
  The slice \<open>xs[start:]\<close>: a negative start counts from the end, and the start is clamped
  to the bounds of the sequence. \<open>xs[-0:]\<close> is \<open>xs[0:]\<close>, the whole sequence.
\<close>

definition slice_from :: "int \<Rightarrow> 'a list \<Rightarrow> 'a list" where
  "slice_from start xs =
     (let n = int (length xs);
          i = (if start < 0 then max 0 (start + n) else min start n)
      in drop (nat i) xs)"

section \<open>Syntax trees\<close>

text \<open>
  A node of Python's \<open>ast\<close> module is kept as its class, as far as the embedder tests it
  with \<open>isinstance\<close>, and the list of its child nodes in the order of
  \<open>ast.iter_child_nodes\<close>. Every class the embedder does not test is \<open>ast_Other\<close>.
\<close>

datatype kind =
    ast_FunctionDef | ast_Call | ast_Assign | ast_AugAssign | ast_Compare | ast_BinOp
  | ast_Subscript | ast_If | ast_For | ast_While | ast_Return | ast_Other

datatype node = Node kind "node list"

fun kind_of :: "node \<Rightarrow> kind" where
  "kind_of (Node k cs) = k"

text \<open>The attribute \<open>args\<close> of a function definition, of class \<open>ast.arguments\<close>.\<close>

record ast_arguments =
  posonlyargs :: "string list"
  args :: "string list"
  vararg :: "string option"
  kwonlyargs :: "string list"
  kwarg :: "string option"

text \<open>
  An \<open>ast.FunctionDef\<close>: its name, its \<open>args\<close> attribute (field \<open>arguments\<close>) and its
  child nodes (the arguments node, the statements of the body, decorators, annotation).
\<close>

record FunctionDef =
  name :: string
  arguments :: ast_arguments
  child_nodes :: "node list"

definition as_node :: "FunctionDef \<Rightarrow> node" where
  "as_node f = Node ast_FunctionDef (child_nodes f)"

text \<open>
  \<open>ast.walk\<close> keeps a queue: it takes the first node, puts that node's children at the
  end of the queue and yields the node. This is a breadth-first order.
\<close>

fun node_count :: "node \<Rightarrow> nat" where
  "node_count (Node k cs) = Suc (sum_list (map node_count cs))"

function walk_queue :: "node list \<Rightarrow> node list" where
  "walk_queue [] = []"
| "walk_queue (Node k cs # todo) = Node k cs # walk_queue (todo @ cs)"
  by pat_completeness auto
termination
  by (relation "measure (\<lambda>q. sum_list (map node_count q))") auto

definition walk :: "node \<Rightarrow> node list" where
  "walk n = walk_queue [n]"

text \<open>The nodes of a tree in depth-first (pre-order) order, the order the specification names.\<close>

fun subnodes :: "node \<Rightarrow> node list" where
  "subnodes (Node k cs) = Node k cs # concat (map subnodes cs)"

section \<open>What the embedder takes from outside\<close>

text \<open>
  The embedder calls the Python runtime, \<open>hashlib\<close>, scikit-learn and numpy. They are
  parameters of the model:
  \<^item> \<open>set_iter\<close>: the order in which \<open>list(s)\<close> yields a set of strings that was built by
    adding the given strings in the given order. It depends on the string hashes of the
    running process.
  \<^item> \<open>md5_hexdigest\<close>: \<open>hashlib.md5(s.encode()).hexdigest()\<close>.
  \<^item> \<open>tfidf_fit\<close>, \<open>tfidf_transform\<close>, \<open>vocabulary_size\<close>: the \<open>TfidfVectorizer\<close>;
    \<open>fit_transform(docs)\<close> is \<open>fit(docs)\<close> followed by \<open>transform\<close> of each document,
    one row per document. It does not fail on feature strings: each of them holds the
    terms \<open>func_...\<close> and \<open>args_...\<close>, so the vocabulary is not empty.
  \<^item> \<open>cosine_similarity\<close>: an entry of \<open>cosine_similarity(X, Y)\<close>, the similarity of a
    row of \<open>X\<close> and a row of \<open>Y\<close>.
  \<^item> \<open>argsort\<close>: \<open>numpy.ndarray.argsort()\<close> with the default sort kind.
\<close>

record ('voc, 'vec) library =
  set_iter :: "string list \<Rightarrow> string list"
  md5_hexdigest :: "string \<Rightarrow> string"
  tfidf_fit :: "string list \<Rightarrow> 'voc"
  tfidf_transform :: "'voc \<Rightarrow> string \<Rightarrow> 'vec"
  vocabulary_size :: "'voc \<Rightarrow> nat"
  cosine_similarity :: "'vec \<Rightarrow> 'vec \<Rightarrow> real"
  argsort :: "real list \<Rightarrow> nat list"

text \<open>
  What is known of these parameters: \<open>list(s)\<close> yields every element of the set once, and
  \<open>argsort\<close> returns a permutation of the positions that puts the values in ascending
  order. The default sort kind of numpy is not stable, so nothing more is assumed of the
  order of equal values.
\<close>

definition set_iter_ok :: "('voc, 'vec) library \<Rightarrow> bool" where
  "set_iter_ok lib \<longleftrightarrow>
     (\<forall>xs. distinct xs \<longrightarrow> distinct (set_iter lib xs) \<and> set (set_iter lib xs) = set xs)"

definition is_argsort :: "real list \<Rightarrow> nat list \<Rightarrow> bool" where
  "is_argsort xs p \<longleftrightarrow> sort p = [0..<length xs] \<and> sorted (map (\<lambda>i. xs ! i) p)"

definition argsort_ok :: "('voc, 'vec) library \<Rightarrow> bool" where
  "argsort_ok lib \<longleftrightarrow> (\<forall>xs. is_argsort xs (argsort lib xs))"

section \<open>Feature extraction\<close>

text \<open>The body of the loop of \<open>_extract_operations\<close>: six independent \<open>if\<close> statements.\<close>

definition add_operations :: "node \<Rightarrow> string list \<Rightarrow> string list" where
  "add_operations child operations =
     (let operations = (if kind_of child = ast_Call
                        then set_add ''operation_call'' operations else operations);
          operations = (if kind_of child = ast_Assign
                        then set_add ''operation_assign'' operations else operations);
          operations = (if kind_of child = ast_AugAssign
                        then set_add ''operation_aug_assign'' operations else operations);
          operations = (if kind_of child = ast_Compare
                        then set_add ''operation_compare'' operations else operations);
          operations = (if kind_of child = ast_BinOp
                        then set_add ''operation_math'' operations else operations);
          operations = (if kind_of child = ast_Subscript
                        then set_add ''operation_subscript'' operations else operations)
      in operations)"

definition extract_operations :: "('voc, 'vec) library \<Rightarrow> node \<Rightarrow> string list" where
  "extract_operations lib n =
     set_iter lib (foldl (\<lambda>operations child. add_operations child operations) [] (walk n))"

definition extract_complexity_features :: "node \<Rightarrow> string list" where
  "extract_complexity_features n =
     (let if_counts = length (filter (\<lambda>child. kind_of child = ast_If) (walk n));
          for_counts = length (filter (\<lambda>child. kind_of child = ast_For) (walk n));
          while_counts = length (filter (\<lambda>child. kind_of child = ast_While) (walk n))
      in (if if_counts > 3 then [''High_conditional_complexity''] else [])
         @ (if for_counts + while_counts > 2 then [''High_loop_complexity''] else []))"

definition extract_return_pattern :: "node \<Rightarrow> string" where
  "extract_return_pattern n =
     (let return_nodes = filter (\<lambda>child. kind_of child = ast_Return) (walk n)
      in if return_nodes = [] then ''return_none''
         else if length return_nodes = 1 then ''return_single''
         else ''return_multiple'')"

text \<open>The list \<open>features\<close> of \<open>extract_code_features\<close> before it is joined.\<close>

definition feature_list :: "('voc, 'vec) library \<Rightarrow> FunctionDef \<Rightarrow> string list" where
  "feature_list lib function_node =
     [''func_'' @ name function_node,
      ''args_'' @ str_nat (length (args (arguments function_node)))]
     @ extract_operations lib (as_node function_node)
     @ extract_complexity_features (as_node function_node)
     @ [extract_return_pattern (as_node function_node)]"

definition extract_code_features :: "('voc, 'vec) library \<Rightarrow> FunctionDef \<Rightarrow> string" where
  "extract_code_features lib function_node = join_space (feature_list lib function_node)"

section \<open>The embedder\<close>

text \<open>The value stored in \<open>function_database\<close> under a function id.\<close>

record function_data =
  fd_features :: string
  fd_quality_score :: real
  fd_name :: string
  fd_node :: FunctionDef

text \<open>An entry of the list \<open>find_similar_functions\<close> returns.\<close>

record match =
  m_function_id :: string
  m_name :: string
  m_similarity :: real
  m_quality_score :: real
  m_features :: string

text \<open>
  The attributes of a \<open>CodeEmbedder\<close>. \<open>embedding_vectors\<close> and \<open>is_fitted\<close> are
  \<open>None\<close> as long as the attribute has never been assigned; \<open>vectorizer\<close> holds what the
  \<open>TfidfVectorizer\<close> has learnt, \<open>None\<close> before its first fit.
\<close>

record ('voc, 'vec) CodeEmbedder =
  vectorizer :: "'voc option"
  function_database :: "(string \<times> function_data) list"
  embedding_vectors :: "'vec list option"
  is_fitted :: "bool option"

text \<open>\<open>__init__\<close> assigns \<open>vectorizer\<close> and \<open>function_database\<close> and nothing else.\<close>

definition init :: "('voc, 'vec) CodeEmbedder" where
  "init = \<lparr>vectorizer = None, function_database = [], embedding_vectors = None,
           is_fitted = None\<rparr>"

definition add_function_to_database ::
  "('voc, 'vec) library \<Rightarrow> FunctionDef \<Rightarrow> real \<Rightarrow> ('voc, 'vec) CodeEmbedder
     \<Rightarrow> string \<times> ('voc, 'vec) CodeEmbedder" where
  "add_function_to_database lib function_node quality_score self =
     (let features = extract_code_features lib function_node;
          function_id = name function_node @ ''_'' @ take 8 (md5_hexdigest lib features)
      in (function_id,
          self\<lparr>function_database :=
                 dict_set function_id
                   \<lparr>fd_features = features, fd_quality_score = quality_score,
                    fd_name = name function_node, fd_node = function_node\<rparr>
                   (function_database self)\<rparr>))"

text \<open>\<open>fit_embeddings\<close> returns the new state and the lines it prints.\<close>

definition fit_embeddings ::
  "('voc, 'vec) library \<Rightarrow> ('voc, 'vec) CodeEmbedder
     \<Rightarrow> ('voc, 'vec) CodeEmbedder \<times> string list" where
  "fit_embeddings lib self =
     (if function_database self = [] then (self, [''No function database to learn from''])
      else
        let feature_texts = map (\<lambda>(function_id, data). fd_features data) (function_database self);
            voc = tfidf_fit lib feature_texts
        in (self\<lparr>vectorizer := Some voc,
                 embedding_vectors := Some (map (tfidf_transform lib voc) feature_texts),
                 is_fitted := Some True\<rparr>,
            [''Learned embeddings for '' @ str_nat (length feature_texts) @ '' functions'',
             ''Vocabulary size : '' @ str_nat (vocabulary_size lib voc)]))"

text \<open>The line \<open>similarities[0].argsort()[-top_k:][::-1]\<close>.\<close>

definition similar_indices :: "('voc, 'vec) library \<Rightarrow> real list \<Rightarrow> int \<Rightarrow> nat list" where
  "similar_indices lib similarities top_k = rev (slice_from (- top_k) (argsort lib similarities))"

text \<open>
  The \<open>for\<close> loop of \<open>find_similar_functions\<close>. Its body only assigns the local variables
  \<open>function_id\<close> and \<open>function_data\<close>; the third argument holds \<open>idx\<close>, \<open>function_id\<close> and
  \<open>function_data\<close> once they are bound.
\<close>

fun for_idx ::
  "string list \<Rightarrow> (string \<times> function_data) list \<Rightarrow> (nat \<times> string \<times> function_data) option
     \<Rightarrow> nat list \<Rightarrow> error + (nat \<times> string \<times> function_data) option" where
  "for_idx function_ids db locals [] = Inr locals"
| "for_idx function_ids db locals (idx # rest) =
     (if idx < length function_ids then
        (case map_of db (function_ids ! idx) of
           None \<Rightarrow> Inl KeyError
         | Some function_data \<Rightarrow>
             for_idx function_ids db (Some (idx, function_ids ! idx, function_data)) rest)
      else Inl IndexError)"

text \<open>
  \<open>find_similar_functions\<close> returns the list of matches and the lines it prints, or the
  exception it raises. \<open>results.append\<close> stands after the loop, so it runs once, with the
  local variables as the last iteration left them.
\<close>

definition find_similar_functions ::
  "('voc, 'vec) library \<Rightarrow> ('voc, 'vec) CodeEmbedder \<Rightarrow> FunctionDef \<Rightarrow> int
     \<Rightarrow> error + (match list \<times> string list)" where
  "find_similar_functions lib self target_function top_k =
     (case is_fitted self of
        None \<Rightarrow> Inl AttributeError
      | Some fitted \<Rightarrow>
          if \<not> fitted then Inr ([], [''Embeddings not fitted yet - call fit_embeddings() first''])
          else
            (case vectorizer self of
               None \<Rightarrow> Inl NotFittedError
             | Some voc \<Rightarrow>
                 (case embedding_vectors self of
                    None \<Rightarrow> Inl AttributeError
                  | Some rows \<Rightarrow>
                      let target_features = extract_code_features lib target_function;
                          target_vector = tfidf_transform lib voc target_features;
                          similarities = map (cosine_similarity lib target_vector) rows;
                          function_ids = map fst (function_database self)
                      in (case for_idx function_ids (function_database self) None
                                 (similar_indices lib similarities top_k) of
                            Inl e \<Rightarrow> Inl e
                          | Inr None \<Rightarrow> Inl UnboundLocalError
                          | Inr (Some (idx, function_id, function_data)) \<Rightarrow>
                              if idx < length similarities then
                                Inr ([\<lparr>m_function_id = function_id,
                                       m_name = fd_name function_data,
                                       m_similarity = similarities ! idx,
                                       m_quality_score = fd_quality_score function_data,
                                       m_features = fd_features function_data\<rparr>], [])
                              else Inl IndexError))))"

section \<open>States the embedder can reach, and views used in the statements\<close>

text \<open>A state is reachable when calls of \<open>add_function_to_database\<close> and \<open>fit_embeddings\<close>
  lead to it from a new embedder.\<close>

inductive reachable :: "('voc, 'vec) library \<Rightarrow> ('voc, 'vec) CodeEmbedder \<Rightarrow> bool"
  for lib :: "('voc, 'vec) library" where
  reach_init: "reachable lib init"
| reach_add: "reachable lib s \<Longrightarrow> reachable lib (snd (add_function_to_database lib f q s))"
| reach_fit: "reachable lib s \<Longrightarrow> reachable lib (fst (fit_embeddings lib s))"

text \<open>The number of rows of the fitted document matrix.\<close>

definition fitted_row_count :: "('voc, 'vec) CodeEmbedder \<Rightarrow> nat" where
  "fitted_row_count s = (case embedding_vectors s of None \<Rightarrow> 0 | Some rows \<Rightarrow> length rows)"

text \<open>The similarities of a query against the rows of the fitted matrix, as
  \<open>find_similar_functions\<close> computes them.\<close>

definition query_similarities ::
  "('voc, 'vec) library \<Rightarrow> ('voc, 'vec) CodeEmbedder \<Rightarrow> FunctionDef \<Rightarrow> real list" where
  "query_similarities lib s f =
     (case (vectorizer s, embedding_vectors s) of
        (Some voc, Some rows) \<Rightarrow>
          map (cosine_similarity lib (tfidf_transform lib voc (extract_code_features lib f))) rows
      | _ \<Rightarrow> [])"

text \<open>The match built from the record at a position of the database.\<close>

definition match_at :: "(string \<times> function_data) list \<Rightarrow> real list \<Rightarrow> nat \<Rightarrow> match" where
  "match_at db sims idx =
     \<lparr>m_function_id = fst (db ! idx), m_name = fd_name (snd (db ! idx)),
      m_similarity = sims ! idx, m_quality_score = fd_quality_score (snd (db ! idx)),
      m_features = fd_features (snd (db ! idx))\<rparr>"

text \<open>What holds of a fitted embedder between calls.\<close>

definition fitted_inv :: "('voc, 'vec) CodeEmbedder \<Rightarrow> bool" where
  "fitted_inv s \<longleftrightarrow>
     is_fitted s = Some True \<and> vectorizer s \<noteq> None \<and> embedding_vectors s \<noteq> None \<and>
     0 < fitted_row_count s \<and> fitted_row_count s \<le> length (function_database s)"

text \<open>A sort of the positions by insertion, which is stable. It is one \<open>argsort\<close> that
  sorts; numpy's generic quicksort sorts an array of fewer than 16 elements by insertion.\<close>

definition stable_argsort :: "real list \<Rightarrow> nat list" where
  "stable_argsort xs = sort_key (\<lambda>i. xs ! i) [0..<length xs]"

section \<open>The contract of the specification, in its own words\<close>

text \<open>
  The operation kinds and their tokens, and the operations channel as the specification
  describes it: each kind once, in the order in which a depth-first traversal first sees it.
\<close>

fun operation_token :: "kind \<Rightarrow> string option" where
  "operation_token ast_Call = Some ''operation_call''"
| "operation_token ast_Assign = Some ''operation_assign''"
| "operation_token ast_AugAssign = Some ''operation_aug_assign''"
| "operation_token ast_Compare = Some ''operation_compare''"
| "operation_token ast_BinOp = Some ''operation_math''"
| "operation_token ast_Subscript = Some ''operation_subscript''"
| "operation_token k = None"

definition spec_operations :: "node \<Rightarrow> string list" where
  "spec_operations n =
     foldl (\<lambda>seen c. case operation_token (kind_of c) of None \<Rightarrow> seen | Some t \<Rightarrow> set_add t seen)
       [] (subnodes n)"

text \<open>The tokens of the operations, complexity and return-pattern channels.\<close>

definition channel_tokens :: "string list" where
  "channel_tokens =
     [''operation_call'', ''operation_assign'', ''operation_aug_assign'', ''operation_compare'',
      ''operation_math'', ''operation_subscript'', ''High_conditional_complexity'',
      ''High_loop_complexity'', ''return_none'', ''return_single'', ''return_multiple'']"

text \<open>
  \<open>rank\<close> as the specification describes it: the \<open>k\<close> rows of highest similarity, highest
  first, rows of equal similarity in ascending row index, \<open>k\<close> clamped to the row count.
\<close>

definition spec_rank :: "real list \<Rightarrow> int \<Rightarrow> nat list" where
  "spec_rank sims k = take (nat k) (sort_key (\<lambda>i. - (sims ! i)) [0..<length sims])"

section \<open>Concrete inputs\<close>

text \<open>
  A library to run the embedder on concrete inputs. The set iterates in insertion order
  (one of the orders a process can have), \<open>argsort\<close> is the stable sort, and the
  vectorizer and the similarity are stand-ins: a document is its own vector, and the
  similarity of two vectors is 1 when they are equal and 0 otherwise (the cosine of equal
  vectors, and of vectors of documents without a common term). The digest is a table with
  the MD5 digests of the two feature strings that are added below.
\<close>

definition demo_lib :: "(unit, string) library" where
  "demo_lib =
     \<lparr>set_iter = (\<lambda>xs. xs),
      md5_hexdigest =
        (\<lambda>s. if s = ''func_total args_1 operation_call return_single''
               then ''1eec36f920d7925a700fa76949630719''
             else if s = ''func_reset args_0 operation_assign return_none''
               then ''34317add0dc33e046acc84d5949427a8''
             else ''00000000000000000000000000000000''),
      tfidf_fit = (\<lambda>docs. ()),
      tfidf_transform = (\<lambda>voc doc. doc),
      vocabulary_size = (\<lambda>voc. 0),
      cosine_similarity = (\<lambda>x y. if x = y then 1 else 0),
      argsort = stable_argsort\<rparr>"

text \<open>
  Nodes without a tested class: \<open>leaf\<close> is a node without children (an \<open>ast.arg\<close>, a
  constant, an expression context), \<open>name_expr\<close> an \<open>ast.Name\<close> with its context.
\<close>

abbreviation leaf :: node where
  "leaf \<equiv> Node ast_Other []"

abbreviation name_expr :: node where
  "name_expr \<equiv> Node ast_Other [leaf]"

text \<open>\<open>def total(items): return sum(items)\<close>\<close>

definition fn_total :: FunctionDef where
  "fn_total =
     \<lparr>name = ''total'',
      arguments = \<lparr>posonlyargs = [], args = [''items''], vararg = None, kwonlyargs = [],
                   kwarg = None\<rparr>,
      child_nodes =
        [Node ast_Other [leaf],
         Node ast_Return [Node ast_Call [name_expr, name_expr]]]\<rparr>"

text \<open>\<open>def reset(): x = 0\<close>\<close>

definition fn_reset :: FunctionDef where
  "fn_reset =
     \<lparr>name = ''reset'',
      arguments = \<lparr>posonlyargs = [], args = [], vararg = None, kwonlyargs = [], kwarg = None\<rparr>,
      child_nodes = [Node ast_Other [], Node ast_Assign [name_expr, leaf]]\<rparr>"

text \<open>\<open>def collect(first, *rest, **options): return first\<close>\<close>

definition fn_collect :: FunctionDef where
  "fn_collect =
     \<lparr>name = ''collect'',
      arguments = \<lparr>posonlyargs = [], args = [''first''], vararg = Some ''rest'',
                   kwonlyargs = [], kwarg = Some ''options''\<rparr>,
      child_nodes = [Node ast_Other [leaf, leaf, leaf], Node ast_Return [name_expr]]\<rparr>"

text \<open>
  \<open>show\<close> has the body \<open>print(v)\<close>, \<open>x = v\<close> (two statements), and \<open>store\<close> the body
  \<open>x = v\<close>, \<open>print(v)\<close>. A call that is a statement is the child of an expression
  statement, so it lies one level below an assignment of the same body.
\<close>

definition fn_show :: FunctionDef where
  "fn_show =
     \<lparr>name = ''show'',
      arguments = \<lparr>posonlyargs = [], args = [''v''], vararg = None, kwonlyargs = [],
                   kwarg = None\<rparr>,
      child_nodes =
        [Node ast_Other [leaf],
         Node ast_Other [Node ast_Call [name_expr, name_expr]],
         Node ast_Assign [name_expr, name_expr]]\<rparr>"

definition fn_store :: FunctionDef where
  "fn_store =
     \<lparr>name = ''store'',
      arguments = \<lparr>posonlyargs = [], args = [''v''], vararg = None, kwonlyargs = [],
                   kwarg = None\<rparr>,
      child_nodes =
        [Node ast_Other [leaf],
         Node ast_Assign [name_expr, name_expr],
         Node ast_Other [Node ast_Call [name_expr, name_expr]]]\<rparr>"

text \<open>An embedder with one record, and one with two records, both fitted.\<close>

definition one_fitted :: "(unit, string) CodeEmbedder" where
  "one_fitted = fst (fit_embeddings demo_lib (snd (add_function_to_database demo_lib fn_total 1 init)))"

definition two_added :: "(unit, string) CodeEmbedder" where
  "two_added =
     snd (add_function_to_database demo_lib fn_reset 1
            (snd (add_function_to_database demo_lib fn_total 1 init)))"

definition two_fitted :: "(unit, string) CodeEmbedder" where
  "two_fitted = fst (fit_embeddings demo_lib two_added)"

section \<open>The ranking line\<close>

lemma is_argsort_props:
  assumes "is_argsort xs p"
  shows "mset p = mset [0..<length xs]" "distinct p" "set p = {0..<length xs}" "length p = length xs"
    "sorted (map (\<lambda>i. xs ! i) p)"
proof -
  from assms have sp: "sort p = [0..<length xs]" and so: "sorted (map (\<lambda>i. xs ! i) p)"
    by (simp_all add: is_argsort_def)
  have "mset (sort p) = mset p" by simp
  with sp show m: "mset p = mset [0..<length xs]" by simp
  from m show "distinct p" by (metis distinct_upt mset_eq_imp_distinct_iff)
  from m show "set p = {0..<length xs}" by (metis mset_eq_setD set_upt)
  from m show "length p = length xs" by (metis mset_eq_length length_upt diff_zero)
  from so show "sorted (map (\<lambda>i. xs ! i) p)" .
qed

lemma stable_argsort_is_argsort: "is_argsort xs (stable_argsort xs)"
  unfolding is_argsort_def stable_argsort_def
  by (simp add: sorted_sort_id properties_for_sort)

lemma slice_from_neg:
  "0 < k \<Longrightarrow> slice_from (- k) xs = drop (length xs - nat k) xs"
  unfolding slice_from_def Let_def
  by (auto simp: max_def min_def nat_diff_distrib' intro: arg_cong2[where f=drop])

lemma slice_from_zero: "slice_from 0 xs = xs"
  by (simp add: slice_from_def)

lemma similar_indices_pos:
  "0 < k \<Longrightarrow> similar_indices lib sims k
     = rev (drop (length (argsort lib sims) - nat k) (argsort lib sims))"
  by (simp add: similar_indices_def slice_from_neg)

lemma similar_indices_length:
  assumes "is_argsort sims (argsort lib sims)" "0 < k"
  shows "length (similar_indices lib sims k) = min (nat k) (length sims)"
  using assms is_argsort_props(4)[OF assms(1)] by (simp add: similar_indices_pos)

lemma similar_indices_subset:
  assumes "is_argsort sims (argsort lib sims)"
  shows "set (similar_indices lib sims k) \<subseteq> {0..<length sims}"
proof -
  have "set (similar_indices lib sims k) \<subseteq> set (argsort lib sims)"
    by (auto simp: similar_indices_def slice_from_def Let_def dest: in_set_dropD)
  with is_argsort_props(3)[OF assms] show ?thesis by simp
qed

lemma similar_indices_distinct:
  assumes "is_argsort sims (argsort lib sims)"
  shows "distinct (similar_indices lib sims k)"
  using is_argsort_props(2)[OF assms]
  by (simp add: similar_indices_def slice_from_def Let_def)

lemma similar_indices_descending:
  assumes "is_argsort sims (argsort lib sims)"
  shows "sorted (rev (map (\<lambda>i. sims ! i) (similar_indices lib sims k)))"
proof -
  define m where "m = nat (let n = int (length (argsort lib sims)); s = - k in if s < 0 then max 0 (s + n) else min s n)"
  have "sorted (map (\<lambda>i. sims ! i) (take m (argsort lib sims) @ drop m (argsort lib sims)))"
    using is_argsort_props(5)[OF assms] by simp
  then have "sorted (map (\<lambda>i. sims ! i) (drop m (argsort lib sims)))"
    unfolding map_append sorted_append by simp
  then show ?thesis
    by (simp add: similar_indices_def slice_from_def Let_def m_def rev_map)
qed

lemma similar_indices_highest:
  assumes ok: "is_argsort sims (argsort lib sims)"
    and j: "j < length sims" "j \<notin> set (similar_indices lib sims k)"
    and i: "i \<in> set (similar_indices lib sims k)"
  shows "sims ! j \<le> sims ! i"
proof -
  define p where "p = argsort lib sims"
  define m where "m = nat (let n = int (length p); s = - k in if s < 0 then max 0 (s + n) else min s n)"
  have r: "similar_indices lib sims k = rev (drop m p)"
    by (simp add: similar_indices_def slice_from_def m_def p_def Let_def)
  from is_argsort_props(3)[OF ok] j(1) have "j \<in> set p" by (simp add: p_def)
  then have "j \<in> set (take m p) \<union> set (drop m p)" by (metis set_append append_take_drop_id)
  with j(2) r have jt: "j \<in> set (take m p)" by simp
  from i r have id: "i \<in> set (drop m p)" by simp
  from is_argsort_props(5)[OF ok] have "sorted (map (\<lambda>i. sims ! i) (take m p @ drop m p))"
    by (simp add: p_def)
  then have "\<forall>x\<in>set (take m p). \<forall>y\<in>set (drop m p). sims ! x \<le> sims ! y"
    unfolding map_append sorted_append by auto
  with jt id show ?thesis by blast
qed

lemma last_similar_indices:
  assumes ok: "is_argsort sims (argsort lib sims)" and k: "0 < k" and n: "sims \<noteq> []"
  shows "similar_indices lib sims k \<noteq> []"
    and "last (similar_indices lib sims k) = rev (argsort lib sims) ! (min (nat k) (length sims) - 1)"
proof -
  define p where "p = argsort lib sims"
  have len: "length p = length sims" using is_argsort_props(4)[OF ok] by (simp add: p_def)
  have r: "similar_indices lib sims k = rev (drop (length p - nat k) p)"
    using k by (simp add: similar_indices_pos p_def)
  from n len k have lt: "length p - nat k < length p" by (cases p) auto
  then show "similar_indices lib sims k \<noteq> []" using r by simp
  have "last (similar_indices lib sims k) = hd (drop (length p - nat k) p)"
    using r lt by (simp add: last_rev)
  also have "\<dots> = p ! (length p - nat k)" using lt by (simp add: hd_drop_conv_nth)
  also have "\<dots> = rev p ! (min (nat k) (length sims) - 1)"
    using lt len k by (subst rev_nth) (auto simp: min_def intro: arg_cong[where f="nth p"])
  finally show "last (similar_indices lib sims k) = rev (argsort lib sims) ! (min (nat k) (length sims) - 1)"
    by (simp add: p_def)
qed

section \<open>The loop, the database and the reachable states\<close>

lemma map_of_nth:
  assumes "distinct (map fst db)" "i < length db"
  shows "map_of db (map fst db ! i) = Some (snd (db ! i))"
proof -
  from assms(2) have "(fst (db ! i), snd (db ! i)) \<in> set db" by simp
  with assms show ?thesis by (simp add: map_of_eq_Some_iff)
qed

lemma for_idx_last:
  assumes "distinct (map fst db)" "\<forall>idx\<in>set idxs. idx < length db" "idxs \<noteq> []"
  shows "for_idx (map fst db) db locals idxs
           = Inr (Some (last idxs, fst (db ! last idxs), snd (db ! last idxs)))"
  using assms(2,3)
proof (induction idxs arbitrary: locals)
  case Nil
  then show ?case by simp
next
  case (Cons idx rest)
  then have "idx < length db" by simp
  then have step: "for_idx (map fst db) db locals (idx # rest)
      = for_idx (map fst db) db (Some (idx, fst (db ! idx), snd (db ! idx))) rest"
    using map_of_nth[OF assms(1)] by simp
  show ?case
  proof (cases "rest = []")
    case True
    with step show ?thesis by simp
  next
    case False
    with Cons step show ?thesis by simp
  qed
qed

lemma for_idx_Nil: "for_idx ids db locals [] = Inr locals"
  by simp

lemma dict_set_keys:
  "map fst (dict_set k v d) = (if k \<in> set (map fst d) then map fst d else map fst d @ [k])"
  by (induction d) (force split: if_splits)+

lemma dict_set_distinct: "distinct (map fst d) \<Longrightarrow> distinct (map fst (dict_set k v d))"
  by (simp add: dict_set_keys)

lemma dict_set_length: "length d \<le> length (dict_set k v d)"
  by (induction d) auto



lemma reachable_distinct: "reachable lib s \<Longrightarrow> distinct (map fst (function_database s))"
proof (induction rule: reachable.induct)
  case reach_init
  then show ?case by (simp add: init_def)
next
  case (reach_add s f q)
  then show ?case by (simp add: add_function_to_database_def Let_def dict_set_distinct)
next
  case (reach_fit s)
  then show ?case by (simp add: fit_embeddings_def Let_def)
qed

lemma fit_establishes_inv:
  "function_database s \<noteq> [] \<Longrightarrow> fitted_inv (fst (fit_embeddings lib s))"
  by (simp add: fit_embeddings_def Let_def fitted_inv_def fitted_row_count_def)

lemma fit_keeps_inv: "fitted_inv s \<Longrightarrow> fitted_inv (fst (fit_embeddings lib s))"
  by (cases "function_database s = []") (simp_all add: fit_establishes_inv, simp add: fit_embeddings_def)

lemma add_keeps_inv: "fitted_inv s \<Longrightarrow> fitted_inv (snd (add_function_to_database lib f q s))"
proof -
  assume inv: "fitted_inv s"
  have rows: "embedding_vectors (snd (add_function_to_database lib f q s)) = embedding_vectors s"
    and rest: "is_fitted (snd (add_function_to_database lib f q s)) = is_fitted s"
      "vectorizer (snd (add_function_to_database lib f q s)) = vectorizer s"
    by (simp_all add: add_function_to_database_def Let_def)
  have "length (function_database s)
      \<le> length (function_database (snd (add_function_to_database lib f q s)))"
    by (simp add: add_function_to_database_def Let_def dict_set_length)
  with inv show ?thesis
    unfolding fitted_inv_def fitted_row_count_def rows rest by simp
qed

lemma reachable_fitted:
  "reachable lib s \<Longrightarrow> is_fitted s = None \<or> fitted_inv s"
proof (induction rule: reachable.induct)
  case reach_init
  then show ?case by (simp add: init_def)
next
  case (reach_add s f q)
  from reach_add.IH show ?case
  proof (elim disjE)
    assume "is_fitted s = None"
    then show ?thesis by (simp add: add_function_to_database_def Let_def)
  next
    assume "fitted_inv s"
    then show ?thesis by (simp add: add_keeps_inv)
  qed
next
  case (reach_fit s)
  show ?case
  proof (cases "function_database s = []")
    case True
    with reach_fit show ?thesis by (simp add: fit_embeddings_def)
  next
    case False
    then show ?thesis by (simp add: fit_establishes_inv)
  qed
qed

lemma find_similar_fitted:
  assumes inv: "fitted_inv s" and d: "distinct (map fst (function_database s))"
    and ok: "is_argsort (query_similarities lib s f) (argsort lib (query_similarities lib s f))"
    and ne: "similar_indices lib (query_similarities lib s f) top_k \<noteq> []"
  shows "find_similar_functions lib s f top_k
           = Inr ([match_at (function_database s) (query_similarities lib s f)
                     (last (similar_indices lib (query_similarities lib s f) top_k))], [])"
proof -
  define sims where "sims = query_similarities lib s f"
  define r where "r = similar_indices lib sims top_k"
  from inv obtain voc rows where v: "vectorizer s = Some voc" and e: "embedding_vectors s = Some rows"
    and f: "is_fitted s = Some True" and len: "length rows \<le> length (function_database s)"
    by (auto simp: fitted_inv_def fitted_row_count_def)
  have sims: "sims = map (cosine_similarity lib (tfidf_transform lib voc (extract_code_features lib f))) rows"
    by (simp add: sims_def query_similarities_def v e)
  have sub: "set r \<subseteq> {0..<length sims}"
    unfolding r_def using similar_indices_subset ok sims_def by blast
  have ls: "length sims = length rows" by (simp add: sims)
  from sub ls len have rng: "\<forall>idx\<in>set r. idx < length (function_database s)" by fastforce
  from ne have rne: "r \<noteq> []" by (simp add: r_def sims_def)
  then have "last r \<in> set r" by simp
  with sub have lt: "last r < length sims" by auto
  have loop: "for_idx (map fst (function_database s)) (function_database s) None r
      = Inr (Some (last r, fst (function_database s ! last r), snd (function_database s ! last r)))"
    by (rule for_idx_last[OF d rng rne])
  show ?thesis
    unfolding find_similar_functions_def
    using loop lt
    by (simp add: f v e Let_def sims[symmetric] r_def[symmetric] match_at_def sims_def[symmetric] case_prod_beta)
qed

section \<open>The traversal and the operations channel\<close>

lemma mset_walk_queue: "mset (walk_queue q) = mset (concat (map subnodes q))"
  by (induction q rule: walk_queue.induct) (simp_all add: ac_simps)

lemma set_walk: "set (walk n) = set (subnodes n)"
proof -
  have "mset (walk n) = mset (subnodes n)" by (simp add: walk_def mset_walk_queue)
  then show ?thesis by (rule mset_eq_setD)
qed

lemma add_operations_token:
  "add_operations child ops
     = (case operation_token (kind_of child) of None \<Rightarrow> ops | Some t \<Rightarrow> set_add t ops)"
  by (cases "kind_of child") (simp_all add: add_operations_def Let_def)

lemma set_add_props: "distinct s \<Longrightarrow> distinct (set_add x s)" "set (set_add x s) = insert x (set s)"
  by (auto simp: set_add_def)

lemma foldl_add_operations:
  assumes "distinct acc"
  shows "distinct (foldl (\<lambda>operations child. add_operations child operations) acc xs) \<and>
         set (foldl (\<lambda>operations child. add_operations child operations) acc xs)
           = set acc \<union> {t. \<exists>c\<in>set xs. operation_token (kind_of c) = Some t}"
  using assms
proof (induction xs arbitrary: acc)
  case Nil
  then show ?case by simp
next
  case (Cons x xs)
  have d: "distinct (add_operations x acc)"
    using Cons.prems by (simp add: add_operations_token set_add_props split: option.split)
  have s: "set (add_operations x acc) = set acc \<union> {t. operation_token (kind_of x) = Some t}"
    by (auto simp: add_operations_token set_add_props split: option.split)
  from Cons.IH[OF d] s show ?case by auto
qed

lemma extract_operations_set:
  assumes "set_iter_ok lib"
  shows "distinct (extract_operations lib n)"
    and "set (extract_operations lib n) = {t. \<exists>c\<in>set (subnodes n). operation_token (kind_of c) = Some t}"
proof -
  let ?h = "foldl (\<lambda>operations child. add_operations child operations) [] (walk n)"
  have h: "distinct ?h" "set ?h = {t. \<exists>c\<in>set (walk n). operation_token (kind_of c) = Some t}"
    using foldl_add_operations[of "[]" "walk n"] by simp_all
  from assms h(1) have "distinct (set_iter lib ?h) \<and> set (set_iter lib ?h) = set ?h"
    by (simp add: set_iter_ok_def)
  with h(2) show "distinct (extract_operations lib n)"
    and "set (extract_operations lib n) = {t. \<exists>c\<in>set (subnodes n). operation_token (kind_of c) = Some t}"
    by (simp_all add: extract_operations_def set_walk)
qed

lemma operation_token_range: "operation_token k = Some t \<Longrightarrow> t \<in> set channel_tokens"
  by (cases k) (auto simp: channel_tokens_def)

lemma demo_set_iter_ok: "set_iter_ok demo_lib"
  by (simp add: set_iter_ok_def demo_lib_def)

lemma demo_argsort_ok: "argsort_ok demo_lib"
  by (simp add: argsort_ok_def demo_lib_def stable_argsort_is_argsort)

section \<open>More on the ranking line\<close>

lemma similar_indices_nonempty:
  assumes ok: "is_argsort sims (argsort lib sims)" and n: "sims \<noteq> []" and k: "0 \<le> k"
  shows "similar_indices lib sims k \<noteq> []"
proof (cases "k = 0")
  case True
  from is_argsort_props(4)[OF ok] n have "argsort lib sims \<noteq> []" by auto
  with True show ?thesis by (simp add: similar_indices_def slice_from_zero)
next
  case False
  with k have "0 < k" by simp
  from last_similar_indices(1)[OF ok this n] show ?thesis .
qed

lemma sorted_map_uminus_rev:
  fixes xs :: "real list"
  shows "sorted xs \<Longrightarrow> sorted (map uminus (rev xs))"
  by (induction xs) (auto simp: sorted_append)

lemma similar_indices_tie_free:
  assumes ok: "is_argsort sims (argsort lib sims)" and k: "0 < k" and d: "distinct sims"
  shows "similar_indices lib sims k = spec_rank sims k"
proof -
  define p where "p = argsort lib sims"
  define f where "f = (\<lambda>i. - (sims ! i))"
  define q where "q = sort_key f [0..<length sims]"
  note props = is_argsort_props[OF ok, folded p_def]
  have inj: "inj_on f {0..<length sims}"
    using d by (auto simp: inj_on_def f_def nth_eq_iff_index_eq)
  have sq: "set q = {0..<length sims}" and dq: "distinct q" by (simp_all add: q_def)
  have "map f (rev p) = map uminus (rev (map (\<lambda>i. sims ! i) p))"
    by (simp add: f_def rev_map)
  then have s1: "sorted (map f (rev p))"
    using sorted_map_uminus_rev[OF props(5)] by simp
  have d1: "distinct (map f (rev p))"
    using props(2,3) inj by (simp add: distinct_map)
  have s2: "sorted (map f q)" by (simp add: q_def)
  have d2: "distinct (map f q)" using dq sq inj by (simp add: distinct_map)
  have "rev p = q"
    by (rule map_sorted_distinct_set_unique[where f = f])
       (use inj props(3) sq s1 d1 s2 d2 in simp_all)
  moreover have "similar_indices lib sims k = take (nat k) (rev p)"
  proof (cases "nat k \<le> length p")
    case True
    then have "length p - (length p - nat k) = nat k" by simp
    with k show ?thesis by (simp add: similar_indices_pos p_def[symmetric] rev_drop)
  next
    case False
    with k show ?thesis by (simp add: similar_indices_pos p_def[symmetric])
  qed
  ultimately show ?thesis by (simp add: spec_rank_def q_def f_def)
qed

text \<open>With the stable sort, rows of equal similarity come out in descending row index.\<close>

lemma stable_ties_descending:
  assumes "argsort lib = stable_argsort"
  shows "sorted (rev (filter (\<lambda>i. sims ! i = v) (similar_indices lib sims k)))"
proof -
  define p where "p = stable_argsort sims"
  define m where "m = nat (let n = int (length p); s = - k in if s < 0 then max 0 (s + n) else min s n)"
  have r: "similar_indices lib sims k = rev (drop m p)"
    by (simp add: similar_indices_def slice_from_def m_def p_def Let_def assms)
  have "filter (\<lambda>i. sims ! i = v) p = filter (\<lambda>i. sims ! i = v) [0..<length sims]"
    unfolding p_def stable_argsort_def by (rule sort_key_stable)
  moreover have "sorted (filter (\<lambda>i. sims ! i = v) [0..<length sims])"
    by (rule sorted_filter[where f = "\<lambda>x. x", simplified]) simp
  ultimately have "sorted (filter (\<lambda>i. sims ! i = v) (take m p @ drop m p))"
    by (simp del: filter_append)
  then have "sorted (filter (\<lambda>i. sims ! i = v) (drop m p))"
    unfolding filter_append sorted_append by simp
  then show ?thesis by (simp add: r rev_filter)
qed

section \<open>Queries on a fitted embedder\<close>

lemma find_similar_reachable:
  assumes r: "reachable lib s" and f: "is_fitted s = Some True" and ok: "argsort_ok lib"
    and k: "1 \<le> top_k"
  shows "find_similar_functions lib s target top_k
           = Inr ([match_at (function_database s) (query_similarities lib s target)
                     (rev (argsort lib (query_similarities lib s target))
                        ! (min (nat top_k) (fitted_row_count s) - 1))], [])"
proof -
  let ?sims = "query_similarities lib s target"
  from reachable_fitted[OF r] f have inv: "fitted_inv s" by simp
  have d: "distinct (map fst (function_database s))" by (rule reachable_distinct[OF r])
  from ok have a: "is_argsort ?sims (argsort lib ?sims)" by (simp add: argsort_ok_def)
  from inv have len: "length ?sims = fitted_row_count s" and ne: "?sims \<noteq> []"
    by (auto simp: fitted_inv_def query_similarities_def fitted_row_count_def)
  from k have k': "0 < top_k" by simp
  note l = last_similar_indices[OF a k' ne]
  show ?thesis
    using find_similar_fitted[OF inv d a l(1)] l(2) len by simp
qed

lemma add_keeps_fit:
  "embedding_vectors (snd (add_function_to_database lib g q s)) = embedding_vectors s"
  "vectorizer (snd (add_function_to_database lib g q s)) = vectorizer s"
  "is_fitted (snd (add_function_to_database lib g q s)) = is_fitted s"
  by (simp_all add: add_function_to_database_def Let_def)

lemma fit_row_count:
  "function_database s \<noteq> [] \<Longrightarrow>
     fitted_row_count (fst (fit_embeddings lib s)) = length (function_database s)"
  by (simp add: fit_embeddings_def Let_def fitted_row_count_def)

section \<open>The channels of the feature list\<close>

lemma spec_operations_set:
  "distinct (spec_operations n)"
  "set (spec_operations n) = {t. \<exists>c\<in>set (subnodes n). operation_token (kind_of c) = Some t}"
proof -
  have "spec_operations n = foldl (\<lambda>operations child. add_operations child operations) [] (subnodes n)"
    by (simp add: spec_operations_def add_operations_token)
  with foldl_add_operations[of "[]" "subnodes n"]
  show "distinct (spec_operations n)"
    and "set (spec_operations n) = {t. \<exists>c\<in>set (subnodes n). operation_token (kind_of c) = Some t}"
    by simp_all
qed

lemma complexity_range: "set (extract_complexity_features n) \<subseteq> set channel_tokens"
  by (auto simp: extract_complexity_features_def Let_def channel_tokens_def)

lemma return_pattern_range: "extract_return_pattern n \<in> set channel_tokens"
  by (simp add: extract_return_pattern_def Let_def channel_tokens_def)

section \<open>Evaluating the concrete inputs\<close>

lemmas demo_defs =
  demo_lib_def fn_total_def fn_reset_def fn_collect_def fn_show_def fn_store_def one_fitted_def
  two_added_def two_fitted_def init_def add_function_to_database_def fit_embeddings_def
  extract_code_features_def feature_list_def extract_operations_def
  extract_complexity_features_def extract_return_pattern_def as_node_def walk_def
  add_operations_def set_add_def digit_char_def Let_def

lemma reachable_two_fitted: "reachable demo_lib two_fitted"
  unfolding two_fitted_def two_added_def by (intro reachable.intros)

lemma reachable_one_fitted: "reachable demo_lib one_fitted"
  unfolding one_fitted_def by (intro reachable.intros)

lemma two_fitted_eval:
  "two_fitted =
     \<lparr>vectorizer = Some (),
      function_database =
        [(''total_1eec36f9'',
          \<lparr>fd_features = ''func_total args_1 operation_call return_single'',
           fd_quality_score = 1, fd_name = ''total'', fd_node = fn_total\<rparr>),
         (''reset_34317add'',
          \<lparr>fd_features = ''func_reset args_0 operation_assign return_none'',
           fd_quality_score = 1, fd_name = ''reset'', fd_node = fn_reset\<rparr>)],
      embedding_vectors =
        Some [''func_total args_1 operation_call return_single'',
              ''func_reset args_0 operation_assign return_none''],
      is_fitted = Some True\<rparr>"
  by (simp add: demo_defs str_nat.simps)

lemma features_total:
  "extract_code_features demo_lib fn_total = ''func_total args_1 operation_call return_single''"
  by (simp add: demo_defs str_nat.simps)

lemma sims_two_total: "query_similarities demo_lib two_fitted fn_total = [1, 0]"
  by (simp add: query_similarities_def two_fitted_eval features_total) (simp add: demo_lib_def)

lemma argsort_10: "argsort demo_lib [1, 0] = [1, 0]"
  by (simp add: demo_lib_def stable_argsort_def upt_rec)

lemma rank_example: "similar_indices demo_lib [3/10, 9/10, 1/2] 2 = [1, 2]"
  by (simp add: similar_indices_def demo_lib_def stable_argsort_def slice_from_def upt_rec)

text \<open>
  Whatever the library is, \<open>show\<close> and \<open>store\<close> get the same operations channel, since
  \<open>ast.walk\<close> meets the assignment before the call in both; a depth-first traversal meets
  the call first in \<open>show\<close> and the assignment first in \<open>store\<close>.
\<close>

lemma operations_order_any_library:
  "extract_operations lib (as_node fn_show) = extract_operations lib (as_node fn_store) \<and>
   spec_operations (as_node fn_show) \<noteq> spec_operations (as_node fn_store)"
  by (simp add: fn_show_def fn_store_def extract_operations_def as_node_def walk_def
      add_operations_def set_add_def Let_def spec_operations_def)

section \<open>The claims\<close>

text \<open>
  C1. The specification promises \<open>min(top_k, fitted_row_count)\<close> matches, sorted by
  similarity. \<open>results.append\<close> stands outside the loop over the ranked indices, so a fitted
  embedder returns one match whenever \<open>top_k\<close> is at least 1: with two or more fitted rows
  and \<open>top_k\<close> of two or more, the length of the result is 1 and falls short of
  \<open>min(top_k, fitted_row_count)\<close>.
\<close>

theorem find_similar_one_match_for_top_k:
  assumes "reachable lib s" "is_fitted s = Some True" "argsort_ok lib"
    and "2 \<le> top_k" "2 \<le> fitted_row_count s"
  shows "case find_similar_functions lib s target top_k of
           Inl e \<Rightarrow> False
         | Inr (results, printed) \<Rightarrow>
             length results = 1 \<and> length results < min (nat top_k) (fitted_row_count s)"
proof -
  from assms(4) have k: "1 \<le> top_k" by simp
  from assms(4,5) have "1 < min (nat top_k) (fitted_row_count s)" by simp
  with find_similar_reachable[OF assms(1-3) k, of target] show ?thesis by simp
qed

theorem find_similar_one_match_for_top_k_witness:
  "reachable demo_lib two_fitted \<and> is_fitted two_fitted = Some True \<and> argsort_ok demo_lib \<and>
   (2::int) \<le> 2 \<and> 2 \<le> fitted_row_count two_fitted \<and>
   (case find_similar_functions demo_lib two_fitted fn_reset 2 of
      Inl e \<Rightarrow> False
    | Inr (results, printed) \<Rightarrow>
        length results = 1 \<and> length results < min (nat 2) (fitted_row_count two_fitted))"
proof -
  have f: "is_fitted two_fitted = Some True" by (simp add: two_fitted_eval)
  have k: "(2::int) \<le> 2" by simp
  have n: "fitted_row_count two_fitted = 2" by (simp add: fitted_row_count_def two_fitted_eval)
  then have n2: "2 \<le> fitted_row_count two_fitted" by simp
  from find_similar_one_match_for_top_k[OF reachable_two_fitted f demo_argsort_ok k n2, of fn_reset]
  show ?thesis using reachable_two_fitted f demo_argsort_ok n2 k by blast
qed

text \<open>
  C2. The specification says that a similarity query on a new model, on which
  \<open>fit_embeddings\<close> was never called, gives an empty result and a diagnostic, and that no
  exception escapes. \<open>__init__\<close> never assigns \<open>is_fitted\<close>, so the guard
  \<open>if not self.is_fitted\<close> of \<open>find_similar_functions\<close> raises \<open>AttributeError\<close> on a
  new embedder, whatever the library, the query and \<open>top_k\<close> are; a fit on the empty
  database does not change that.
\<close>

theorem find_similar_fresh_raises:
  "find_similar_functions lib init target top_k = Inl AttributeError \<and>
   find_similar_functions lib (fst (fit_embeddings lib init)) target top_k = Inl AttributeError"
  by (simp add: find_similar_functions_def init_def fit_embeddings_def)

text \<open>
  C3. The ranking line, for \<open>k\<close> of at least 1 and any \<open>argsort\<close> that sorts: it returns
  \<open>min(k, rows)\<close> distinct row indices, in descending order of similarity, and no row left
  out is more similar than a row returned. When no two rows are equally similar, this is the
  ranking of the specification. Rows of equal similarity are not put in ascending row
  index: the line reverses an ascending argsort, so with the stable sort the later row comes
  first, as two equal similarities and \<open>k = 1\<close> show.
\<close>

theorem similar_indices_top_k:
  assumes "argsort_ok lib" "1 \<le> k"
  shows "length (similar_indices lib sims k) = min (nat k) (length sims) \<and>
         distinct (similar_indices lib sims k) \<and>
         (\<forall>i\<in>set (similar_indices lib sims k). i < length sims) \<and>
         sorted (rev (map (\<lambda>i. sims ! i) (similar_indices lib sims k))) \<and>
         (\<forall>j<length sims. j \<notin> set (similar_indices lib sims k) \<longrightarrow>
            (\<forall>i\<in>set (similar_indices lib sims k). sims ! j \<le> sims ! i)) \<and>
         (distinct sims \<longrightarrow> similar_indices lib sims k = spec_rank sims k)"
proof -
  from assms(1) have a: "is_argsort sims (argsort lib sims)" by (simp add: argsort_ok_def)
  from assms(2) have k: "0 < k" by simp
  have "\<forall>i\<in>set (similar_indices lib sims k). i < length sims"
    using similar_indices_subset[OF a, of k] by auto
  moreover have "\<forall>j<length sims. j \<notin> set (similar_indices lib sims k) \<longrightarrow>
            (\<forall>i\<in>set (similar_indices lib sims k). sims ! j \<le> sims ! i)"
    using similar_indices_highest[OF a] by blast
  ultimately show ?thesis
    using similar_indices_length[OF a k] similar_indices_distinct[OF a]
      similar_indices_descending[OF a] similar_indices_tie_free[OF a k]
    by blast
qed

theorem similar_indices_top_k_witness:
  "argsort_ok demo_lib \<and> (1::int) \<le> 2 \<and>
   similar_indices demo_lib [3/10, 9/10, 1/2] 2 = [1, 2] \<and>
   length (similar_indices demo_lib [3/10, 9/10, 1/2] 2) = min (nat 2) (length [3/10, 9/10, 1/2 :: real]) \<and>
   spec_rank [3/10, 9/10, 1/2] 2 = [1, 2]"
proof -
  have k: "(1::int) \<le> 2" by simp
  have d: "distinct [3/10, 9/10, 1/2 :: real]" by simp
  from similar_indices_top_k[OF demo_argsort_ok k, of "[3/10, 9/10, 1/2]"] d
  have "length (similar_indices demo_lib [3/10, 9/10, 1/2] 2) = min (nat 2) (length [3/10, 9/10, 1/2 :: real])"
    and "similar_indices demo_lib [3/10, 9/10, 1/2] 2 = spec_rank [3/10, 9/10, 1/2] 2"
    by blast+
  with rank_example demo_argsort_ok k show ?thesis by simp
qed

theorem rank_tie_counterexample:
  "similar_indices demo_lib [1/2, 1/2] 1 = [1] \<and> spec_rank [1/2, 1/2] 1 = [0]"
  by (simp add: similar_indices_def demo_lib_def stable_argsort_def slice_from_def spec_rank_def upt_rec)

text \<open>
  C4. The operations channel holds each operation kind at most once, and a kind is in it
  exactly when a node of that kind occurs in the function: the channel is a permutation of
  the first-seen list of the specification. Its order is the order in which the set
  iterates, not the order in which a depth-first traversal first sees the kinds: for
  \<open>show\<close> the channel has the assignment first, and the traversal sees the call first.
\<close>

theorem extract_operations_presence:
  assumes "set_iter_ok lib"
  shows "distinct (extract_operations lib n) \<and>
         set (extract_operations lib n)
           = {t. \<exists>c\<in>set (subnodes n). operation_token (kind_of c) = Some t} \<and>
         mset (extract_operations lib n) = mset (spec_operations n)"
proof -
  note e = extract_operations_set[OF assms, of n]
  have "mset (extract_operations lib n) = mset (spec_operations n)"
    using e spec_operations_set[of n] by (simp add: set_eq_iff_mset_eq_distinct[symmetric])
  with e show ?thesis by simp
qed

theorem extract_operations_presence_witness:
  "set_iter_ok demo_lib \<and>
   distinct (extract_operations demo_lib (as_node fn_show)) \<and>
   mset (extract_operations demo_lib (as_node fn_show)) = mset (spec_operations (as_node fn_show)) \<and>
   extract_operations demo_lib (as_node fn_show) = [''operation_assign'', ''operation_call'']"
proof -
  have "extract_operations demo_lib (as_node fn_show) = [''operation_assign'', ''operation_call'']"
    by (simp add: demo_defs)
  with extract_operations_presence[OF demo_set_iter_ok, of "as_node fn_show"] demo_set_iter_ok
  show ?thesis by blast
qed

theorem operations_order_counterexample:
  "extract_operations demo_lib (as_node fn_show) = [''operation_assign'', ''operation_call''] \<and>
   spec_operations (as_node fn_show) = [''operation_call'', ''operation_assign'']"
  by (simp add: demo_defs spec_operations_def)

text \<open>
  C5. The feature list starts with \<open>func_<name>\<close> and \<open>args_<n>\<close>, where \<open>n\<close> is the
  length of \<open>args.args\<close>; every further token is a token of the operations, complexity or
  return-pattern channel. So a variadic or keyword-variadic parameter is neither counted
  nor given a token of its own: \<open>collect\<close> has both, and three tokens.
\<close>

theorem signature_tokens:
  assumes "set_iter_ok lib"
  shows "take 2 (feature_list lib f)
           = [''func_'' @ name f, ''args_'' @ str_nat (length (args (arguments f)))] \<and>
         set (drop 2 (feature_list lib f)) \<subseteq> set channel_tokens"
proof -
  have "set (extract_operations lib (as_node f)) \<subseteq> set channel_tokens"
    using extract_operations_set(2)[OF assms, of "as_node f"] operation_token_range by auto
  with complexity_range[of "as_node f"] return_pattern_range[of "as_node f"]
  show ?thesis by (simp add: feature_list_def)
qed

theorem signature_tokens_witness:
  "set_iter_ok demo_lib \<and>
   take 2 (feature_list demo_lib fn_collect) = [''func_collect'', ''args_1''] \<and>
   set (drop 2 (feature_list demo_lib fn_collect)) \<subseteq> set channel_tokens"
proof -
  have "[''func_'' @ name fn_collect, ''args_'' @ str_nat (length (args (arguments fn_collect)))]
      = [''func_collect'', ''args_1'']"
    by (simp add: fn_collect_def str_nat.simps digit_char_def)
  with signature_tokens[OF demo_set_iter_ok, of fn_collect] demo_set_iter_ok
  show ?thesis by simp
qed

theorem signature_variadic_counterexample:
  "vararg (arguments fn_collect) = Some ''rest'' \<and>
   kwarg (arguments fn_collect) = Some ''options'' \<and>
   feature_list demo_lib fn_collect = [''func_collect'', ''args_1'', ''return_single'']"
  by (simp add: demo_defs str_nat.simps)

text \<open>
  C6. After a fit on a non-empty database and one more \<open>add_function_to_database\<close>, the
  embedder is still fitted, the document matrix and the vectorizer are those of the fit, the
  matrix has as many rows as the database had at the fit, a query is ranked against these
  rows only, every index of the ranking is below the size of the database at the fit, and
  \<open>find_similar_functions\<close> returns (for \<open>top_k\<close> of at least 0).
\<close>

theorem stale_model_ranks_snapshot:
  assumes "reachable lib s0" "function_database s0 \<noteq> []" "argsort_ok lib" "0 \<le> top_k"
  shows "let s1 = fst (fit_embeddings lib s0);
             s2 = snd (add_function_to_database lib g q s1)
         in is_fitted s2 = Some True \<and>
            fitted_row_count s2 = length (function_database s0) \<and>
            embedding_vectors s2 = embedding_vectors s1 \<and>
            vectorizer s2 = vectorizer s1 \<and>
            query_similarities lib s2 target = query_similarities lib s1 target \<and>
            (\<forall>idx\<in>set (similar_indices lib (query_similarities lib s2 target) top_k).
               idx < length (function_database s0)) \<and>
            find_similar_functions lib s2 target top_k
              = Inr ([match_at (function_database s2) (query_similarities lib s1 target)
                        (last (similar_indices lib (query_similarities lib s1 target) top_k))], [])"
proof -
  define s1 where "s1 = fst (fit_embeddings lib s0)"
  define s2 where "s2 = snd (add_function_to_database lib g q s1)"
  let ?sims = "query_similarities lib s2 target"
  have inv1: "fitted_inv s1" unfolding s1_def by (rule fit_establishes_inv[OF assms(2)])
  then have inv2: "fitted_inv s2" unfolding s2_def by (rule add_keeps_inv)
  have r2: "reachable lib s2" unfolding s2_def s1_def by (intro reachable.intros assms(1))
  have d2: "distinct (map fst (function_database s2))" by (rule reachable_distinct[OF r2])
  have keep: "embedding_vectors s2 = embedding_vectors s1" "vectorizer s2 = vectorizer s1"
    unfolding s2_def by (simp_all add: add_keeps_fit)
  have rows: "fitted_row_count s2 = length (function_database s0)"
    using keep(1) fit_row_count[OF assms(2), of lib] by (simp add: fitted_row_count_def s1_def)
  have q: "?sims = query_similarities lib s1 target"
    by (simp add: query_similarities_def keep)
  from assms(3) have a: "is_argsort ?sims (argsort lib ?sims)" by (simp add: argsort_ok_def)
  from inv2 have len: "length ?sims = fitted_row_count s2" and ne: "?sims \<noteq> []"
    by (auto simp: fitted_inv_def query_similarities_def fitted_row_count_def)
  have idx: "\<forall>idx\<in>set (similar_indices lib ?sims top_k). idx < length (function_database s0)"
    using similar_indices_subset[OF a, of top_k] len rows by auto
  note nonempty = similar_indices_nonempty[OF a ne assms(4)]
  have res: "find_similar_functions lib s2 target top_k
              = Inr ([match_at (function_database s2) ?sims
                        (last (similar_indices lib ?sims top_k))], [])"
    by (rule find_similar_fitted[OF inv2 d2 a nonempty])
  from inv2 have "is_fitted s2 = Some True" by (simp add: fitted_inv_def)
  with rows keep q idx res show ?thesis
    unfolding Let_def s1_def[symmetric] s2_def[symmetric] by simp
qed

theorem stale_model_ranks_snapshot_witness:
  "reachable demo_lib (snd (add_function_to_database demo_lib fn_total 1 init)) \<and>
   function_database (snd (add_function_to_database demo_lib fn_total 1
                             (init :: (unit, string) CodeEmbedder))) \<noteq> [] \<and>
   argsort_ok demo_lib \<and> (0::int) \<le> 3 \<and>
   is_fitted (snd (add_function_to_database demo_lib fn_reset 1 one_fitted)) = Some True \<and>
   fitted_row_count (snd (add_function_to_database demo_lib fn_reset 1 one_fitted)) = 1 \<and>
   length (function_database (snd (add_function_to_database demo_lib fn_reset 1 one_fitted))) = 2 \<and>
   query_similarities demo_lib (snd (add_function_to_database demo_lib fn_reset 1 one_fitted)) fn_total
     = query_similarities demo_lib one_fitted fn_total"
proof -
  let ?s0 = "snd (add_function_to_database demo_lib fn_total 1 (init :: (unit, string) CodeEmbedder))"
  have r: "reachable demo_lib ?s0" by (intro reachable.intros)
  have ne: "function_database ?s0 \<noteq> []" by (simp add: demo_defs)
  have k: "(0::int) \<le> 3" by simp
  have l0: "length (function_database ?s0) = 1" by (simp add: demo_defs)
  have l2: "length (function_database (snd (add_function_to_database demo_lib fn_reset 1 one_fitted))) = 2"
    by (simp add: demo_defs)
  from stale_model_ranks_snapshot[OF r ne demo_argsort_ok k, of fn_reset 1 fn_total]
  show ?thesis
    unfolding Let_def one_fitted_def[symmetric] l0
    using r ne demo_argsort_ok l2 by simp
qed


text \<open>
  C8. \<open>fit_embeddings\<close> on an empty database prints a diagnostic and changes nothing, so
  whatever had been fitted stays; and in a reachable state with an empty database no fit has
  succeeded, and the model is unfitted afterwards as it was before.
\<close>

theorem fit_empty_corpus_noop:
  assumes "function_database s = []"
  shows "fit_embeddings lib s = (s, [''No function database to learn from'']) \<and>
         (reachable lib s \<longrightarrow> is_fitted (fst (fit_embeddings lib s)) = None)"
proof -
  have noop: "fit_embeddings lib s = (s, [''No function database to learn from''])"
    using assms by (simp add: fit_embeddings_def)
  have "is_fitted s = None" if "reachable lib s"
    using reachable_fitted[OF that] assms by (auto simp: fitted_inv_def)
  with noop show ?thesis by simp
qed

theorem fit_empty_corpus_noop_witness:
  "function_database (init :: (unit, string) CodeEmbedder) = [] \<and>
   fit_embeddings demo_lib init = (init, [''No function database to learn from'']) \<and>
   is_fitted (fst (fit_embeddings demo_lib init)) = None"
proof -
  have e: "function_database (init :: (unit, string) CodeEmbedder) = []" by (simp add: init_def)
  from fit_empty_corpus_noop[OF e, of demo_lib] reach_init[of demo_lib] e show ?thesis by blast
qed

text \<open>
  C10. On a fitted embedder and for \<open>top_k\<close> of at least 1, \<open>find_similar_functions\<close>
  returns exactly one match: the record at position \<open>min(top_k, fitted_row_count)\<close> of the
  descending ranking, the last of the top \<open>top_k\<close>. For \<open>top_k = 1\<close>, or with one fitted
  row, this is the first of the ranking, the best match; the query \<open>total\<close> with
  \<open>top_k = 1\<close> on the two fitted rows gets back the row of similarity 1.
\<close>

theorem find_similar_returns_last_of_top_k:
  assumes "reachable lib s" "is_fitted s = Some True" "argsort_ok lib" "1 \<le> top_k"
  shows "sorted (map (\<lambda>i. query_similarities lib s target ! i)
                   (argsort lib (query_similarities lib s target))) \<and>
         find_similar_functions lib s target top_k
           = Inr ([match_at (function_database s) (query_similarities lib s target)
                     (rev (argsort lib (query_similarities lib s target))
                        ! (min (nat top_k) (fitted_row_count s) - 1))], []) \<and>
         (top_k = 1 \<or> fitted_row_count s = 1 \<longrightarrow>
            find_similar_functions lib s target top_k
              = Inr ([match_at (function_database s) (query_similarities lib s target)
                        (rev (argsort lib (query_similarities lib s target)) ! 0)], []))"
proof -
  let ?sims = "query_similarities lib s target"
  from assms(3) have "is_argsort ?sims (argsort lib ?sims)" by (simp add: argsort_ok_def)
  then have so: "sorted (map (\<lambda>i. ?sims ! i) (argsort lib ?sims))" by (rule is_argsort_props(5))
  note r = find_similar_reachable[OF assms, of target]
  have "min (nat top_k) (fitted_row_count s) - 1 = 0" if "top_k = 1 \<or> fitted_row_count s = 1"
    using that assms(4) by auto
  with r so show ?thesis by auto
qed

theorem find_similar_returns_last_of_top_k_witness:
  "reachable demo_lib two_fitted \<and> is_fitted two_fitted = Some True \<and> argsort_ok demo_lib \<and>
   (1::int) \<le> 2 \<and>
   find_similar_functions demo_lib two_fitted fn_total 2
     = Inr ([match_at (function_database two_fitted) [1, 0] 1], []) \<and>
   match_at (function_database two_fitted) [1, 0] 1
     = \<lparr>m_function_id = ''reset_34317add'', m_name = ''reset'', m_similarity = 0,
        m_quality_score = 1,
        m_features = ''func_reset args_0 operation_assign return_none''\<rparr>"
proof -
  have f: "is_fitted two_fitted = Some True" by (simp add: two_fitted_eval)
  have k: "(1::int) \<le> 2" by simp
  have n: "fitted_row_count two_fitted = 2" by (simp add: fitted_row_count_def two_fitted_eval)
  from find_similar_returns_last_of_top_k[OF reachable_two_fitted f demo_argsort_ok k, of fn_total]
  have "find_similar_functions demo_lib two_fitted fn_total 2
     = Inr ([match_at (function_database two_fitted) [1, 0] 1], [])"
    by (simp add: sims_two_total argsort_10 n)
  moreover have "match_at (function_database two_fitted) [1, 0] 1
     = \<lparr>m_function_id = ''reset_34317add'', m_name = ''reset'', m_similarity = 0,
        m_quality_score = 1,
        m_features = ''func_reset args_0 operation_assign return_none''\<rparr>"
    by (simp add: match_at_def two_fitted_eval)
  ultimately show ?thesis using reachable_two_fitted f demo_argsort_ok k by blast
qed

theorem find_similar_top_1_is_best_counterexample:
  "query_similarities demo_lib two_fitted fn_total = [1, 0] \<and>
   find_similar_functions demo_lib two_fitted fn_total 1
     = Inr ([\<lparr>m_function_id = ''total_1eec36f9'', m_name = ''total'', m_similarity = 1,
              m_quality_score = 1,
              m_features = ''func_total args_1 operation_call return_single''\<rparr>], [])"
proof -
  have "for_idx [''total_1eec36f9'', ''reset_34317add''] (function_database two_fitted) None [0]
      = Inr (Some (0, ''total_1eec36f9'', snd (function_database two_fitted ! 0)))"
    by (simp add: two_fitted_eval)
  moreover have "similar_indices demo_lib [1, 0] 1 = [0]"
    by (simp add: similar_indices_def argsort_10 slice_from_def)
  ultimately show ?thesis
    using sims_two_total
    by (simp add: find_similar_functions_def two_fitted_eval features_total)
       (simp add: demo_lib_def)
qed

end
